theory Spec2Isabelle
  imports Complex_Main
begin

section \<open>Safecast migration scripts: SQLite to PostgreSQL\<close>

text \<open>
  The three scripts \<^verbatim>\<open>migrate_all_data.py\<close>, \<^verbatim>\<open>migrate_spectra.py\<close> and
  \<^verbatim>\<open>update_spectra_columns.py\<close> are embedded as functions from an environment, the
  SQLite source and the PostgreSQL target at start to an outcome that carries the
  committed target at the end. Tables are lists of rows. Console output and the
  counters that only feed it are left out; everything that decides which statement
  reaches PostgreSQL is kept.
\<close>

subsection \<open>Values and rows\<close>

text \<open>Python values as \<^verbatim>\<open>sqlite3\<close> returns them and as \<^verbatim>\<open>json.loads\<close> builds them.\<close>

datatype pyval =
    PyNone
  | PyBool bool
  | PyInt int
  | PyFloat real
  | PyStr string
  | PyBytes "nat list"
  | PyList "pyval list"
  | PyDict "(string \<times> pyval) list"

text \<open>A naive \<^verbatim>\<open>datetime\<close>: calendar fields, no time zone attached.\<close>

record datetime =
  dt_year :: int
  dt_month :: int
  dt_day :: int
  dt_hour :: int
  dt_minute :: int
  dt_second :: int

text \<open>Rows of the SQLite tables \<^verbatim>\<open>spectra\<close> and \<^verbatim>\<open>markers\<close>. \<^verbatim>\<open>created_at\<close> is an
  integer number of epoch seconds or NULL; \<^verbatim>\<open>has_spectrum\<close> is an integer or NULL.\<close>

record sqlite_spectrum =
  s_id :: int
  s_marker_id :: int
  s_channels :: pyval
  s_channel_count :: pyval
  s_energy_min_kev :: pyval
  s_energy_max_kev :: pyval
  s_live_time_sec :: pyval
  s_real_time_sec :: pyval
  s_device_model :: pyval
  s_calibration :: pyval
  s_source_format :: pyval
  s_filename :: pyval
  s_raw_data :: pyval
  s_created_at :: "int option"

record sqlite_marker =
  m_id :: int
  m_has_spectrum :: "int option"
  m_speed :: "real option"

record sqlite =
  spectra :: "sqlite_spectrum list"
  markers :: "sqlite_marker list"

text \<open>Rows of the PostgreSQL tables. \<^verbatim>\<open>has_spectrum\<close> is a boolean, \<^verbatim>\<open>speed\<close> is
  nullable, \<^verbatim>\<open>created_at\<close> is a timestamp.\<close>

record pg_spectrum =
  ps_id :: int
  ps_marker_id :: int
  ps_channels :: pyval
  ps_channel_count :: pyval
  ps_energy_min_kev :: pyval
  ps_energy_max_kev :: pyval
  ps_live_time_sec :: pyval
  ps_real_time_sec :: pyval
  ps_device_model :: pyval
  ps_calibration :: pyval
  ps_source_format :: pyval
  ps_filename :: pyval
  ps_raw_data :: pyval
  ps_created_at :: "datetime option"

record pg_marker =
  pm_id :: int
  pm_has_spectrum :: bool
  pm_speed :: "real option"

record pg =
  pg_spectra :: "pg_spectrum list"
  pg_markers :: "pg_marker list"

subsection \<open>Statements sent to PostgreSQL\<close>

datatype pg_stmt =
    InsertSpectrum pg_spectrum
  | SetHasSpectrum int
  | SetHasSpectrumIfFalse int
  | UpdateSpeeds "(int \<times> real) list"
  | UpdateChannels int pyval pyval pyval pyval pyval pyval

datatype py_error = TypeError | ValueError | DatabaseError | EOFError

text \<open>What a run ends with: \<^verbatim>\<open>sys.exit(code)\<close> (or an uncaught exception, code 1),
  the process killed from outside, or \<^verbatim>\<open>main\<close> returning. Each carries the target as
  last committed.\<close>

datatype outcome = Exited nat pg | Killed pg | Completed pg

fun final_state :: "outcome \<Rightarrow> pg" where
  "final_state (Exited c T) = T"
| "final_state (Killed T) = T"
| "final_state (Completed T) = T"

text \<open>The environment of one run: whether the SQLite file exists, whether PostgreSQL
  accepts the connection, the lines typed at the prompts, the local UTC offset in
  seconds at an instant given in epoch seconds, \<^verbatim>\<open>json.loads\<close> (None where it
  raises), which data-modifying statements PostgreSQL rejects in which state, and
  after how many committed speed batches the process is killed (None: never).\<close>

record env =
  sqlite_exists :: bool
  pg_connects :: bool
  stdin :: "string list"
  utcoffset :: "int \<Rightarrow> int"
  json_loads :: "string \<Rightarrow> pyval option"
  pg_raises :: "pg \<Rightarrow> pg_stmt \<Rightarrow> bool"
  killed_after :: "nat option"

subsection \<open>Library functions the scripts call\<close>

text \<open>\<^verbatim>\<open>str.lower\<close> on the letters that matter for the comparison with \<^verbatim>\<open>'yes'\<close>.\<close>

definition lower_char :: "char \<Rightarrow> char" where
  "lower_char c =
     (case map_of (zip ''ABCDEFGHIJKLMNOPQRSTUVWXYZ'' ''abcdefghijklmnopqrstuvwxyz'') c of
        Some d \<Rightarrow> d
      | None \<Rightarrow> c)"

definition lower :: "string \<Rightarrow> string" where
  "lower s = map lower_char s"

text \<open>Days since 1970-01-01 to (year, month, day) of the proleptic Gregorian calendar.\<close>

definition civil_from_days :: "int \<Rightarrow> int \<times> int \<times> int" where
  "civil_from_days z0 =
     (let z = z0 + 719468;
          era = z div 146097;
          doe = z mod 146097;
          yoe = (doe - doe div 1460 + doe div 36524 - doe div 146096) div 365;
          y = yoe + era * 400;
          doy = doe - (365 * yoe + yoe div 4 - yoe div 100);
          mp = (5 * doy + 2) div 153;
          d = doy - (153 * mp + 2) div 5 + 1;
          m = (if mp < 10 then mp + 3 else mp - 9)
      in (if m \<le> 2 then y + 1 else y, m, d))"

text \<open>The calendar timestamp that is \<open>t\<close> seconds after 1970-01-01 00:00:00.\<close>

definition calendar_of_seconds :: "int \<Rightarrow> datetime" where
  "calendar_of_seconds t =
     (let sod = t mod 86400 in
      case civil_from_days (t div 86400) of
        (y, m, d) \<Rightarrow>
          \<lparr>dt_year = y, dt_month = m, dt_day = d,
           dt_hour = sod div 3600, dt_minute = (sod mod 3600) div 60, dt_second = sod mod 60\<rparr>)"

text \<open>\<^verbatim>\<open>datetime.utcfromtimestamp\<close>: the UTC reading of an epoch number.\<close>

definition utcfromtimestamp :: "int \<Rightarrow> datetime" where
  "utcfromtimestamp t = calendar_of_seconds t"

text \<open>\<^verbatim>\<open>datetime.fromtimestamp(created_at)\<close> with no \<^verbatim>\<open>tz\<close>: the local date and time
  of the platform, as a naive datetime. None raises TypeError; a result outside the
  years 1 to 9999 raises ValueError.\<close>

definition fromtimestamp :: "(int \<Rightarrow> int) \<Rightarrow> int option \<Rightarrow> py_error + datetime" where
  "fromtimestamp off created_at =
     (case created_at of
        None \<Rightarrow> Inl TypeError
      | Some t \<Rightarrow>
          (let l = t + off t in
           if l < - 62135596800 \<or> 253402300799 < l then Inl ValueError
           else Inr (calendar_of_seconds l)))"

text \<open>\<^verbatim>\<open>psycopg2.extras.execute_values\<close> cuts its argument list into pages
  (\<^verbatim>\<open>page_size=100\<close> by default) and executes the statement once per page.\<close>

function pages :: "nat \<Rightarrow> 'a list \<Rightarrow> 'a list list" where
  "pages n xs = (if n = 0 \<or> xs = [] then [] else take n xs # pages n (drop n xs))"
  by pat_completeness auto
termination
  by (relation "measure (\<lambda>(n, xs). length xs)") auto

declare pages.simps [simp del]

subsection \<open>The effect of a statement\<close>

definition spectrum_exists :: "pg \<Rightarrow> int \<Rightarrow> bool" where
  "spectrum_exists T i = (find (\<lambda>p. ps_id p = i) (pg_spectra T) \<noteq> None)"

definition speed_unset :: "pg_marker \<Rightarrow> bool" where
  "speed_unset m = (pm_speed m = None \<or> pm_speed m = Some 0)"

definition update_speed_row :: "(int \<times> real) list \<Rightarrow> pg_marker \<Rightarrow> pg_marker" where
  "update_speed_row vs m =
     (case map_of vs (pm_id m) of
        Some v \<Rightarrow> if speed_unset m then m\<lparr>pm_speed := Some v\<rparr> else m
      | None \<Rightarrow> m)"

fun apply_stmt :: "pg \<Rightarrow> pg_stmt \<Rightarrow> pg" where
  "apply_stmt T (InsertSpectrum p) = T\<lparr>pg_spectra := pg_spectra T @ [p]\<rparr>"
| "apply_stmt T (SetHasSpectrum i) =
     T\<lparr>pg_markers :=
         map (\<lambda>m. if pm_id m = i then m\<lparr>pm_has_spectrum := True\<rparr> else m) (pg_markers T)\<rparr>"
| "apply_stmt T (SetHasSpectrumIfFalse i) =
     T\<lparr>pg_markers :=
         map (\<lambda>m. if pm_id m = i \<and> pm_has_spectrum m = False
                   then m\<lparr>pm_has_spectrum := True\<rparr> else m) (pg_markers T)\<rparr>"
| "apply_stmt T (UpdateSpeeds vs) =
     T\<lparr>pg_markers := map (update_speed_row vs) (pg_markers T)\<rparr>"
| "apply_stmt T (UpdateChannels i ch cc emin emax lt rt) =
     T\<lparr>pg_spectra :=
         map (\<lambda>p. if ps_id p = i
                   then p\<lparr>ps_channels := ch, ps_channel_count := cc,
                          ps_energy_min_kev := emin, ps_energy_max_kev := emax,
                          ps_live_time_sec := lt, ps_real_time_sec := rt\<rparr>
                   else p) (pg_spectra T)\<rparr>"

text \<open>\<^verbatim>\<open>pg_cursor.execute\<close>: PostgreSQL either raises or applies the statement.\<close>

definition execute :: "env \<Rightarrow> pg \<Rightarrow> pg_stmt \<Rightarrow> py_error + pg" where
  "execute e T s = (if pg_raises e T s then Inl DatabaseError else Inr (apply_stmt T s))"

text \<open>A run of statements one after the other; the first that raises ends it.\<close>

fun execute_all :: "env \<Rightarrow> pg \<Rightarrow> pg_stmt list \<Rightarrow> py_error + pg" where
  "execute_all e T [] = Inr T"
| "execute_all e T (s # ss) =
     (case execute e T s of
        Inl err \<Rightarrow> Inl err
      | Inr T' \<Rightarrow> execute_all e T' ss)"

definition execute_values :: "env \<Rightarrow> pg \<Rightarrow> (int \<times> real) list \<Rightarrow> py_error + pg" where
  "execute_values e T batch = execute_all e T (map UpdateSpeeds (pages 100 batch))"

subsection \<open>Queries on the SQLite source\<close>

text \<open>\<^verbatim>\<open>SELECT ... FROM spectra ORDER BY id\<close>.\<close>

definition select_spectra :: "sqlite \<Rightarrow> sqlite_spectrum list" where
  "select_spectra src = sort_key s_id (spectra src)"

text \<open>\<^verbatim>\<open>SELECT id FROM markers WHERE has_spectrum = 1\<close>.\<close>

definition marker_ids :: "sqlite \<Rightarrow> int list" where
  "marker_ids src = map m_id (filter (\<lambda>m. m_has_spectrum m = Some 1) (markers src))"

text \<open>One row of \<^verbatim>\<open>SELECT id, speed FROM markers WHERE speed IS NOT NULL AND speed > 0\<close>.\<close>

definition speed_row :: "sqlite_marker \<Rightarrow> (int \<times> real) option" where
  "speed_row m =
     (case m_speed m of
        None \<Rightarrow> None
      | Some v \<Rightarrow> if 0 < v then Some (m_id m, v) else None)"

definition speed_rows :: "sqlite \<Rightarrow> (int \<times> real) list" where
  "speed_rows src = sort_key fst (List.map_filter speed_row (markers src))"

text \<open>The same query with \<^verbatim>\<open>ORDER BY id LIMIT ? OFFSET ?\<close>.\<close>

definition select_speed_batch :: "sqlite \<Rightarrow> nat \<Rightarrow> nat \<Rightarrow> (int \<times> real) list" where
  "select_speed_batch src limit offset = take limit (drop offset (speed_rows src))"

definition sqlite_spectra_count :: "sqlite \<Rightarrow> nat" where
  "sqlite_spectra_count src = length (spectra src)"

definition sqlite_markers_speed :: "sqlite \<Rightarrow> nat" where
  "sqlite_markers_speed src = length (List.map_filter speed_row (markers src))"

subsection \<open>Queries on the PostgreSQL target\<close>

definition pg_spectra_count :: "pg \<Rightarrow> nat" where
  "pg_spectra_count T = length (pg_spectra T)"

text \<open>\<^verbatim>\<open>SELECT COUNT(*) FROM markers WHERE speed IS NOT NULL AND speed > 0\<close>.\<close>

definition has_speed :: "pg_marker \<Rightarrow> bool" where
  "has_speed m = (case pm_speed m of None \<Rightarrow> False | Some v \<Rightarrow> 0 < v)"

definition pg_markers_speed :: "pg \<Rightarrow> nat" where
  "pg_markers_speed T = length (filter has_speed (pg_markers T))"

text \<open>\<^verbatim>\<open>SELECT COUNT(*) FROM spectra WHERE channels IS NULL\<close>.\<close>

definition null_count :: "pg \<Rightarrow> nat" where
  "null_count T = length (filter (\<lambda>p. ps_channels p = PyNone) (pg_spectra T))"

subsection \<open>The insert loop of \<^verbatim>\<open>migrate_all_data.py\<close> and \<^verbatim>\<open>migrate_spectra.py\<close>\<close>

text \<open>The parameter tuple of the INSERT: every column as read, \<^verbatim>\<open>created_at\<close>
  replaced by the converted timestamp.\<close>

definition insert_values :: "sqlite_spectrum \<Rightarrow> datetime \<Rightarrow> pg_spectrum" where
  "insert_values row created_timestamp =
     \<lparr>ps_id = s_id row, ps_marker_id = s_marker_id row, ps_channels = s_channels row,
      ps_channel_count = s_channel_count row, ps_energy_min_kev = s_energy_min_kev row,
      ps_energy_max_kev = s_energy_max_kev row, ps_live_time_sec = s_live_time_sec row,
      ps_real_time_sec = s_real_time_sec row, ps_device_model = s_device_model row,
      ps_calibration = s_calibration row, ps_source_format = s_source_format row,
      ps_filename = s_filename row, ps_raw_data = s_raw_data row,
      ps_created_at = Some created_timestamp\<rparr>"

fun insert_spectra :: "env \<Rightarrow> sqlite_spectrum list \<Rightarrow> pg \<Rightarrow> py_error + pg" where
  "insert_spectra e [] T = Inr T"
| "insert_spectra e (row # spectra_rows) T =
     (if spectrum_exists T (s_id row) then insert_spectra e spectra_rows T
      else
        (case fromtimestamp (utcoffset e) (s_created_at row) of
           Inl err \<Rightarrow> Inl err
         | Inr created_timestamp \<Rightarrow>
             (case execute e T (InsertSpectrum (insert_values row created_timestamp)) of
                Inl err \<Rightarrow> Inl err
              | Inr T' \<Rightarrow> insert_spectra e spectra_rows T')))"

subsection \<open>The flag loops\<close>

text \<open>\<^verbatim>\<open>migrate_all_data.py\<close> guards the update with \<^verbatim>\<open>AND has_spectrum = false\<close>;
  \<^verbatim>\<open>migrate_spectra.py\<close> does not.\<close>

definition update_flags_guarded :: "env \<Rightarrow> sqlite \<Rightarrow> pg \<Rightarrow> py_error + pg" where
  "update_flags_guarded e src T = execute_all e T (map SetHasSpectrumIfFalse (marker_ids src))"

definition update_flags :: "env \<Rightarrow> sqlite \<Rightarrow> pg \<Rightarrow> py_error + pg" where
  "update_flags e src T = execute_all e T (map SetHasSpectrum (marker_ids src))"

subsection \<open>The speed loop of \<^verbatim>\<open>migrate_all_data.py\<close>\<close>

definition BATCH_SIZE :: nat where
  "BATCH_SIZE = 10000"

text \<open>Each batch is one transaction. \<open>n\<close> counts the batches committed so far; it
  is only read to place the kill of the environment.\<close>

function speed_loop :: "env \<Rightarrow> sqlite \<Rightarrow> nat \<Rightarrow> nat \<Rightarrow> pg \<Rightarrow> outcome" where
  "speed_loop e src offset n T =
     (if killed_after e = Some n then Killed T
      else
        (let batch = select_speed_batch src BATCH_SIZE offset in
         if batch = [] then Completed T
         else
           (case execute_values e T batch of
              Inl err \<Rightarrow> Exited 1 T
            | Inr T' \<Rightarrow> speed_loop e src (offset + BATCH_SIZE) (Suc n) T')))"
  by pat_completeness auto
termination
  by (relation "measure (\<lambda>(e, src, offset, n, T). length (speed_rows src) - offset)")
     (auto simp: select_speed_batch_def BATCH_SIZE_def)

declare speed_loop.simps [simp del]

subsection \<open>\<^verbatim>\<open>migrate_all_data.py\<close>\<close>

definition spectra_to_migrate :: "sqlite \<Rightarrow> pg \<Rightarrow> int" where
  "spectra_to_migrate src T = int (sqlite_spectra_count src) - int (pg_spectra_count T)"

definition speed_to_migrate :: "sqlite \<Rightarrow> pg \<Rightarrow> int" where
  "speed_to_migrate src T = int (sqlite_markers_speed src) - int (pg_markers_speed T)"

text \<open>The three parts after the prompts. The two count differences are those
  computed before the prompts, from the target as it was then.\<close>

definition migrate_parts :: "env \<Rightarrow> sqlite \<Rightarrow> int \<Rightarrow> int \<Rightarrow> pg \<Rightarrow> outcome" where
  "migrate_parts e src spectra_delta speed_delta T =
     (case (if 0 < spectra_delta then insert_spectra e (select_spectra src) T else Inr T) of
        Inl err \<Rightarrow> Exited 1 T
      | Inr T1 \<Rightarrow>
          (case update_flags_guarded e src T1 of
             Inl err \<Rightarrow> Exited 1 T1
           | Inr T2 \<Rightarrow>
               if 0 < speed_delta then speed_loop e src 0 0 T2 else Completed T2))"

text \<open>\<^verbatim>\<open>input(...)\<close> followed by \<^verbatim>\<open>if confirm.lower() != 'yes': sys.exit(0)\<close>. With no
  line left, \<^verbatim>\<open>input\<close> raises EOFError, which nothing catches.\<close>

definition confirm :: "string list \<Rightarrow> pg \<Rightarrow> outcome + string list" where
  "confirm inp T =
     (case inp of
        [] \<Rightarrow> Inl (Exited 1 T)
      | a # rest \<Rightarrow> if lower a \<noteq> ''yes'' then Inl (Exited 0 T) else Inr rest)"

definition migrate_all_data_main :: "env \<Rightarrow> sqlite \<Rightarrow> pg \<Rightarrow> outcome" where
  "migrate_all_data_main e src T =
     (if \<not> sqlite_exists e then Exited 1 T
      else if sqlite_spectra_count src = 0 \<and> sqlite_markers_speed src = 0 then Exited 0 T
      else if \<not> pg_connects e then Exited 1 T
      else
        (case (if spectra_to_migrate src T \<le> 0 \<and> speed_to_migrate src T \<le> 0
               then confirm (stdin e) T else Inr (stdin e)) of
           Inl out \<Rightarrow> out
         | Inr inp \<Rightarrow>
             (case confirm inp T of
                Inl out \<Rightarrow> out
              | Inr rest \<Rightarrow>
                  migrate_parts e src (spectra_to_migrate src T) (speed_to_migrate src T) T)))"

subsection \<open>\<^verbatim>\<open>migrate_spectra.py\<close>\<close>

text \<open>Inserts and flag updates share one transaction.\<close>

definition migrate_spectra_main :: "env \<Rightarrow> sqlite \<Rightarrow> pg \<Rightarrow> outcome" where
  "migrate_spectra_main e src T =
     (if \<not> sqlite_exists e then Exited 1 T
      else if sqlite_spectra_count src = 0 then Exited 0 T
      else if \<not> pg_connects e then Exited 1 T
      else
        (case confirm (stdin e) T of
           Inl out \<Rightarrow> out
         | Inr rest \<Rightarrow>
             (case insert_spectra e (select_spectra src) T of
                Inl err \<Rightarrow> Exited 1 T
              | Inr T1 \<Rightarrow>
                  (case update_flags e src T1 of
                     Inl err \<Rightarrow> Exited 1 T
                   | Inr T2 \<Rightarrow> Completed T2))))"

subsection \<open>\<^verbatim>\<open>update_spectra_columns.py\<close>\<close>

text \<open>The conversion of the channels column: a string goes through \<^verbatim>\<open>json.loads\<close>,
  anything else is kept. None is the bare \<^verbatim>\<open>except\<close>.\<close>

definition parse_channels :: "env \<Rightarrow> pyval \<Rightarrow> pyval option" where
  "parse_channels e channels_str =
     (case channels_str of
        PyStr s \<Rightarrow> json_loads e s
      | PyNone \<Rightarrow> Some PyNone
      | _ \<Rightarrow> Some channels_str)"

fun update_channels :: "env \<Rightarrow> sqlite_spectrum list \<Rightarrow> pg \<Rightarrow> py_error + pg" where
  "update_channels e [] T = Inr T"
| "update_channels e (row # spectra_rows) T =
     (case parse_channels e (s_channels row) of
        None \<Rightarrow> update_channels e spectra_rows T
      | Some channels \<Rightarrow>
          (case execute e T
                  (UpdateChannels (s_id row) channels (s_channel_count row)
                     (s_energy_min_kev row) (s_energy_max_kev row)
                     (s_live_time_sec row) (s_real_time_sec row)) of
             Inl err \<Rightarrow> Inl err
           | Inr T' \<Rightarrow> update_channels e spectra_rows T'))"

text \<open>\<^verbatim>\<open>SELECT ... FROM spectra WHERE channels IS NOT NULL ORDER BY id\<close>.\<close>

definition select_channels :: "sqlite \<Rightarrow> sqlite_spectrum list" where
  "select_channels src = sort_key s_id (filter (\<lambda>r. s_channels r \<noteq> PyNone) (spectra src))"

definition update_spectra_columns_main :: "env \<Rightarrow> sqlite \<Rightarrow> pg \<Rightarrow> outcome" where
  "update_spectra_columns_main e src T =
     (if \<not> sqlite_exists e then Exited 1 T
      else if \<not> pg_connects e then Exited 1 T
      else if null_count T = 0 then Exited 0 T
      else
        (case confirm (stdin e) T of
           Inl out \<Rightarrow> out
         | Inr rest \<Rightarrow>
             (case update_channels e (select_channels src) T of
                Inl err \<Rightarrow> Exited 1 T
              | Inr T' \<Rightarrow> Completed T')))"

section \<open>Closed forms and example stores\<close>

text \<open>What a successful flag loop and a successful speed update amount to.\<close>

definition set_flags :: "int list \<Rightarrow> pg \<Rightarrow> pg" where
  "set_flags ids T =
     T\<lparr>pg_markers :=
         map (\<lambda>m. if pm_id m \<in> set ids then m\<lparr>pm_has_spectrum := True\<rparr> else m) (pg_markers T)\<rparr>"

definition set_speeds :: "(int \<times> real) list \<Rightarrow> pg \<Rightarrow> pg" where
  "set_speeds vs T = T\<lparr>pg_markers := map (update_speed_row vs) (pg_markers T)\<rparr>"

text \<open>An environment in which everything works: the file exists, PostgreSQL accepts
  the connection and every statement, the clock is UTC, nobody kills the process.\<close>

definition plain_env :: "string list \<Rightarrow> env" where
  "plain_env answers =
     \<lparr>sqlite_exists = True, pg_connects = True, stdin = answers, utcoffset = (\<lambda>t. 0),
      json_loads = (\<lambda>s. if s = ''[9, 9]'' then Some (PyList [PyInt 9, PyInt 9]) else None),
      pg_raises = (\<lambda>T s. False), killed_after = None\<rparr>"

definition src_spectrum :: "int \<Rightarrow> int \<Rightarrow> pyval \<Rightarrow> int option \<Rightarrow> sqlite_spectrum" where
  "src_spectrum i mk ch t =
     \<lparr>s_id = i, s_marker_id = mk, s_channels = ch, s_channel_count = PyInt 2,
      s_energy_min_kev = PyFloat 0, s_energy_max_kev = PyFloat 3000,
      s_live_time_sec = PyFloat 60, s_real_time_sec = PyFloat 61, s_device_model = PyNone,
      s_calibration = PyNone, s_source_format = PyNone, s_filename = PyNone,
      s_raw_data = PyNone, s_created_at = t\<rparr>"

definition tgt_spectrum :: "int \<Rightarrow> int \<Rightarrow> pyval \<Rightarrow> pg_spectrum" where
  "tgt_spectrum i mk ch =
     \<lparr>ps_id = i, ps_marker_id = mk, ps_channels = ch, ps_channel_count = PyInt 3,
      ps_energy_min_kev = PyFloat 10, ps_energy_max_kev = PyFloat 2000,
      ps_live_time_sec = PyFloat 30, ps_real_time_sec = PyFloat 31, ps_device_model = PyNone,
      ps_calibration = PyNone, ps_source_format = PyNone, ps_filename = PyNone,
      ps_raw_data = PyNone, ps_created_at = None\<rparr>"

text \<open>A target with one populated spectrum and one whose channels are NULL, and a
  source that holds other channel data under the populated row's id.\<close>

definition c6_src :: sqlite where
  "c6_src = \<lparr>spectra = [src_spectrum 1 7 (PyStr ''[9, 9]'') (Some 0)], markers = []\<rparr>"

definition c6_target :: pg where
  "c6_target =
     \<lparr>pg_spectra = [tgt_spectrum 1 7 (PyList [PyInt 1, PyInt 2, PyInt 3]), tgt_spectrum 2 7 PyNone],
      pg_markers = []\<rparr>"

text \<open>A source with one spectrum and one marker that has a spectrum and a speed; a
  target that holds as many spectra and as many markers with a speed, under other ids.\<close>

definition gate_src :: sqlite where
  "gate_src =
     \<lparr>spectra = [src_spectrum 1 7 (PyStr ''[9, 9]'') (Some 0)],
      markers = [\<lparr>m_id = 7, m_has_spectrum = Some 1, m_speed = Some 5\<rparr>]\<rparr>"

definition gate_target :: pg where
  "gate_target =
     \<lparr>pg_spectra = [tgt_spectrum 2 7 PyNone],
      pg_markers = [\<lparr>pm_id = 7, pm_has_spectrum = False, pm_speed = None\<rparr>,
                    \<lparr>pm_id = 8, pm_has_spectrum = False, pm_speed = Some 9\<rparr>]\<rparr>"

section \<open>Lemmas about the loops\<close>

lemma execute_all_Inr:
  "execute_all e T ss = Inr T' \<Longrightarrow> T' = foldl apply_stmt T ss"
  by (induction ss arbitrary: T) (auto simp: execute_def split: if_splits sum.splits)

lemma execute_all_accepts:
  "(\<And>U s. s \<in> set ss \<Longrightarrow> \<not> pg_raises e U s) \<Longrightarrow> execute_all e T ss = Inr (foldl apply_stmt T ss)"
  by (induction ss arbitrary: T) (auto simp: execute_def)

lemma execute_all_append:
  "execute_all e T (ss @ ts) =
     (case execute_all e T ss of Inl err \<Rightarrow> Inl err | Inr T' \<Rightarrow> execute_all e T' ts)"
  by (induction ss arbitrary: T) (auto split: sum.splits)

lemma pg_eqI: "pg_spectra A = pg_spectra B \<Longrightarrow> pg_markers A = pg_markers B \<Longrightarrow> (A::pg) = B"
  by simp

lemma set_flags_Nil [simp]: "set_flags [] T = T"
  by (simp add: set_flags_def)

lemma foldl_guarded_flags:
  "foldl apply_stmt T (map SetHasSpectrumIfFalse ids) = set_flags ids T"
proof (induction ids arbitrary: T rule: rev_induct)
  case Nil
  show ?case by simp
next
  case (snoc i ids)
  show ?case
    by (simp add: snoc set_flags_def)
qed

lemma foldl_flags:
  "foldl apply_stmt T (map SetHasSpectrum ids) = set_flags ids T"
proof (induction ids arbitrary: T rule: rev_induct)
  case Nil
  show ?case by simp
next
  case (snoc i ids)
  show ?case
    by (simp add: snoc set_flags_def)
qed

lemma concat_pages: "0 < n \<Longrightarrow> concat (pages n xs) = xs"
proof (induction n xs rule: pages.induct)
  case (1 n xs)
  then show ?case by (subst pages.simps) auto
qed

lemma pages_subset: "p \<in> set (pages n xs) \<Longrightarrow> p \<noteq> [] \<and> set p \<subseteq> set xs"
proof (induction n xs rule: pages.induct)
  case (1 n xs)
  show ?case
  proof (cases "n = 0 \<or> xs = []")
    case True
    with "1.prems" show ?thesis by (subst (asm) pages.simps) simp
  next
    case False
    with "1.prems" have "p = take n xs \<or> p \<in> set (pages n (drop n xs))"
      by (subst (asm) pages.simps) simp
    then show ?thesis
    proof
      assume "p = take n xs"
      with False show ?thesis by (auto dest: in_set_takeD)
    next
      assume "p \<in> set (pages n (drop n xs))"
      with "1.IH" [OF False] have "p \<noteq> [] \<and> set p \<subseteq> set (drop n xs)" by simp
      then show ?thesis by (auto dest: in_set_dropD)
    qed
  qed
qed

lemma update_speed_row_append:
  "(\<And>k v. (k, v) \<in> set vs1 \<Longrightarrow> v \<noteq> 0) \<Longrightarrow>
   update_speed_row vs2 (update_speed_row vs1 m) = update_speed_row (vs1 @ vs2) m"
  by (auto simp: update_speed_row_def speed_unset_def map_add_def
           split: option.splits dest: map_of_SomeD)

lemma set_speeds_append:
  "(\<And>k v. (k, v) \<in> set vs1 \<Longrightarrow> v \<noteq> 0) \<Longrightarrow>
   set_speeds vs2 (set_speeds vs1 T) = set_speeds (vs1 @ vs2) T"
  by (simp add: set_speeds_def update_speed_row_append)

lemma set_speeds_Nil [simp]: "set_speeds [] T = T"
proof -
  have "update_speed_row [] = (\<lambda>m. m)"
    by (simp add: fun_eq_iff update_speed_row_def)
  then show ?thesis by (simp add: set_speeds_def)
qed

lemma foldl_speeds:
  "(\<And>k v. (k, v) \<in> set (concat ps) \<Longrightarrow> v \<noteq> 0) \<Longrightarrow>
   foldl apply_stmt T (map UpdateSpeeds ps) = set_speeds (concat ps) T"
proof (induction ps arbitrary: T rule: rev_induct)
  case Nil
  show ?case by simp
next
  case (snoc p ps)
  have "foldl apply_stmt T (map UpdateSpeeds ps) = set_speeds (concat ps) T"
    using snoc.prems by (intro snoc.IH) auto
  moreover have "apply_stmt U (UpdateSpeeds p) = set_speeds p U" for U
    by (simp add: set_speeds_def)
  moreover have "set_speeds p (set_speeds (concat ps) T) = set_speeds (concat ps @ p) T"
    using snoc.prems by (intro set_speeds_append) auto
  ultimately show ?case by simp
qed

subsection \<open>The speed loop\<close>

lemma speed_rows_positive: "(k, v) \<in> set (speed_rows src) \<Longrightarrow> 0 < v"
  by (auto simp: speed_rows_def List.map_filter_def speed_row_def split: option.splits if_splits)

lemma execute_values_Inr:
  assumes "execute_values e T batch = Inr T'" and "\<And>k v. (k, v) \<in> set batch \<Longrightarrow> v \<noteq> 0"
  shows "T' = set_speeds batch T"
proof -
  have "T' = foldl apply_stmt T (map UpdateSpeeds (pages 100 batch))"
    using assms(1) by (simp add: execute_values_def execute_all_Inr)
  also have "\<dots> = set_speeds (concat (pages 100 batch)) T"
    using assms(2) by (intro foldl_speeds) (simp add: concat_pages)
  finally show ?thesis by (simp add: concat_pages)
qed

lemma execute_values_accepts:
  assumes "\<And>U p. p \<noteq> [] \<Longrightarrow> set p \<subseteq> set batch \<Longrightarrow> \<not> pg_raises e U (UpdateSpeeds p)"
    and "\<And>k v. (k, v) \<in> set batch \<Longrightarrow> v \<noteq> 0"
  shows "execute_values e T batch = Inr (set_speeds batch T)"
proof -
  have "execute_values e T batch = Inr (foldl apply_stmt T (map UpdateSpeeds (pages 100 batch)))"
    unfolding execute_values_def
  proof (rule execute_all_accepts)
    fix U s
    assume "s \<in> set (map UpdateSpeeds (pages 100 batch))"
    then obtain p where p: "p \<in> set (pages 100 batch)" and s: "s = UpdateSpeeds p"
      by auto
    from pages_subset [OF p] have "p \<noteq> []" and "set p \<subseteq> set batch"
      by simp_all
    then show "\<not> pg_raises e U s"
      unfolding s by (rule assms(1))
  qed
  moreover have "foldl apply_stmt T (map UpdateSpeeds (pages 100 batch)) = set_speeds (concat (pages 100 batch)) T"
    using assms(2) by (intro foldl_speeds) (simp add: concat_pages)
  ultimately show ?thesis by (simp add: concat_pages)
qed

lemma batch_positive:
  "(k, v) \<in> set (select_speed_batch src b off) \<Longrightarrow> v \<noteq> 0"
  using speed_rows_positive [of k v src]
  by (auto simp: select_speed_batch_def dest!: in_set_takeD in_set_dropD)

lemma BATCH_SIZE_pos: "0 < BATCH_SIZE"
  by (simp add: BATCH_SIZE_def)

lemma take_drop_positive:
  "(k, v) \<in> set (take j (drop off (speed_rows src))) \<Longrightarrow> v \<noteq> 0"
  using speed_rows_positive [of k v src]
  by (auto dest!: in_set_takeD in_set_dropD)

lemma speed_loop_final:
  "\<exists>k. final_state (speed_loop e src off n T) = set_speeds (take k (drop off (speed_rows src))) T"
proof (induction e src off n T rule: speed_loop.induct)
  case (1 e src offset n T)
  let ?rows = "speed_rows src"
  let ?batch = "select_speed_batch src BATCH_SIZE offset"
  show ?case
  proof (cases "killed_after e = Some n \<or> ?batch = []")
    case True
    then have "final_state (speed_loop e src offset n T) = T"
      by (subst speed_loop.simps) auto
    then have "final_state (speed_loop e src offset n T) = set_speeds (take 0 (drop offset ?rows)) T"
      by simp
    then show ?thesis by blast
  next
    case False
    show ?thesis
    proof (cases "execute_values e T ?batch")
      case (Inl err)
      with False have "final_state (speed_loop e src offset n T) = T"
        by (subst speed_loop.simps) auto
      then have "final_state (speed_loop e src offset n T) = set_speeds (take 0 (drop offset ?rows)) T"
        by simp
      then show ?thesis by blast
    next
      case (Inr T')
      have T': "T' = set_speeds ?batch T"
        using Inr batch_positive by (intro execute_values_Inr) auto
      from False Inr have step: "speed_loop e src offset n T = speed_loop e src (offset + BATCH_SIZE) (Suc n) T'"
        by (subst speed_loop.simps) auto
      from "1.IH" [OF _ refl _ Inr] False obtain k where
        k: "final_state (speed_loop e src (offset + BATCH_SIZE) (Suc n) T') =
              set_speeds (take k (drop (offset + BATCH_SIZE) ?rows)) T'"
        by auto
      have "set_speeds (take k (drop (offset + BATCH_SIZE) ?rows)) T' =
            set_speeds (?batch @ take k (drop (offset + BATCH_SIZE) ?rows)) T"
        unfolding T' using batch_positive by (intro set_speeds_append) auto
      also have "?batch @ take k (drop (offset + BATCH_SIZE) ?rows) =
                 take (BATCH_SIZE + k) (drop offset ?rows)"
        by (simp add: select_speed_batch_def take_add add.commute)
      finally show ?thesis using step k by metis
    qed
  qed
qed

lemma speed_loop_Completed:
  "speed_loop e src off n T = Completed S \<Longrightarrow> S = set_speeds (drop off (speed_rows src)) T"
proof (induction e src off n T rule: speed_loop.induct)
  case (1 e src offset n T)
  let ?rows = "speed_rows src"
  let ?batch = "select_speed_batch src BATCH_SIZE offset"
  from "1.prems" have nk: "killed_after e \<noteq> Some n"
    by (subst (asm) speed_loop.simps) (auto split: if_splits)
  show ?case
  proof (cases "?batch = []")
    case True
    with nk "1.prems" have "S = T"
      by (subst (asm) speed_loop.simps) auto
    moreover from True have "drop offset ?rows = []"
      by (simp add: select_speed_batch_def BATCH_SIZE_def)
    ultimately show ?thesis by simp
  next
    case False
    with nk "1.prems" obtain T' where Inr: "execute_values e T ?batch = Inr T'"
      and rec: "speed_loop e src (offset + BATCH_SIZE) (Suc n) T' = Completed S"
      by (subst (asm) speed_loop.simps) (auto split: sum.splits)
    have T': "T' = set_speeds ?batch T"
      using Inr batch_positive by (intro execute_values_Inr) auto
    have "S = set_speeds (drop (offset + BATCH_SIZE) ?rows) T'"
      using "1.IH" [OF nk refl False Inr rec] .
    also have "\<dots> = set_speeds (?batch @ drop (offset + BATCH_SIZE) ?rows) T"
      unfolding T' using batch_positive by (intro set_speeds_append) auto
    also have "?batch @ drop (offset + BATCH_SIZE) ?rows = drop offset ?rows"
      using append_take_drop_id [of BATCH_SIZE "drop offset ?rows"]
      by (simp add: select_speed_batch_def add.commute)
    finally show ?thesis .
  qed
qed

lemma speed_loop_accepts:
  assumes "\<And>U s. \<not> pg_raises e U s" and "killed_after e = None"
  shows "speed_loop e src off n T = Completed (set_speeds (drop off (speed_rows src)) T)"
  using assms
proof (induction e src off n T rule: speed_loop.induct)
  case (1 e src offset n T)
  let ?rows = "speed_rows src"
  let ?batch = "select_speed_batch src BATCH_SIZE offset"
  show ?case
  proof (cases "?batch = []")
    case True
    then have "drop offset ?rows = []"
      by (simp add: select_speed_batch_def BATCH_SIZE_def)
    with True "1.prems" show ?thesis
      by (subst speed_loop.simps) simp
  next
    case False
    have ex: "execute_values e T ?batch = Inr (set_speeds ?batch T)"
      using "1.prems"(1) batch_positive by (intro execute_values_accepts) auto
    have nk: "killed_after e \<noteq> Some n" using "1.prems"(2) by simp
    have "speed_loop e src offset n T =
          speed_loop e src (offset + BATCH_SIZE) (Suc n) (set_speeds ?batch T)"
      using False ex nk by (subst speed_loop.simps) simp
    also have "\<dots> = Completed (set_speeds (drop (offset + BATCH_SIZE) ?rows) (set_speeds ?batch T))"
      using "1.IH" [OF nk refl False ex] "1.prems" by simp
    also have "set_speeds (drop (offset + BATCH_SIZE) ?rows) (set_speeds ?batch T) =
               set_speeds (?batch @ drop (offset + BATCH_SIZE) ?rows) T"
      using batch_positive by (intro set_speeds_append) auto
    also have "?batch @ drop (offset + BATCH_SIZE) ?rows = drop offset ?rows"
      using append_take_drop_id [of BATCH_SIZE "drop offset ?rows"]
      by (simp add: select_speed_batch_def add.commute)
    finally show ?thesis .
  qed
qed

section \<open>The claims\<close>

text \<open>
  C6, as the specification states it: a target spectra row whose channels are already
  populated is left unchanged by \<^verbatim>\<open>update_spectra_columns.py\<close>, for every source row
  with the same id. The script counts the rows whose channels are NULL and asks to
  update that many, but its UPDATE carries no such condition: here row 1, populated
  with three channels, is overwritten with the source's two channels and scalars.
\<close>

theorem C6_update_overwrites_populated_row:
  "update_spectra_columns_main (plain_env [''yes'']) c6_src c6_target =
     Completed
       \<lparr>pg_spectra =
          [(tgt_spectrum 1 7 (PyList [PyInt 9, PyInt 9]))
             \<lparr>ps_channel_count := PyInt 2,
              ps_energy_min_kev := PyFloat 0, ps_energy_max_kev := PyFloat 3000,
              ps_live_time_sec := PyFloat 60, ps_real_time_sec := PyFloat 61\<rparr>,
           tgt_spectrum 2 7 PyNone],
        pg_markers = []\<rparr>"
  by (simp add: update_spectra_columns_main_def plain_env_def c6_src_def c6_target_def
        src_spectrum_def tgt_spectrum_def null_count_def confirm_def lower_def lower_char_def
        select_channels_def parse_channels_def execute_def)

text \<open>
  C10: in \<^verbatim>\<open>migrate_all_data.py\<close>, when both count differences are at most zero and
  the user answers yes to the re-check prompt, the run goes on to the second prompt
  and then executes the flag part only: the spectra part and the speed part test the
  count differences again and are skipped, so the spectra table and every speed are
  as before whatever the run ends with.
\<close>

theorem C10_gates_retest_count_deltas:
  assumes "sqlite_exists e" and "pg_connects e"
    and "\<not> (sqlite_spectra_count src = 0 \<and> sqlite_markers_speed src = 0)"
    and "spectra_to_migrate src T \<le> 0" and "speed_to_migrate src T \<le> 0"
    and "stdin e = a # rest" and "lower a = ''yes''"
  shows "migrate_all_data_main e src T =
           (case confirm rest T of
              Inl out \<Rightarrow> out
            | Inr rest' \<Rightarrow>
                (case update_flags_guarded e src T of
                   Inl err \<Rightarrow> Exited 1 T
                 | Inr T2 \<Rightarrow> Completed T2))
         \<and> pg_spectra (final_state (migrate_all_data_main e src T)) = pg_spectra T
         \<and> map pm_speed (pg_markers (final_state (migrate_all_data_main e src T)))
             = map pm_speed (pg_markers T)"
proof -
  have main: "migrate_all_data_main e src T =
           (case confirm rest T of
              Inl out \<Rightarrow> out
            | Inr rest' \<Rightarrow>
                (case update_flags_guarded e src T of
                   Inl err \<Rightarrow> Exited 1 T
                 | Inr T2 \<Rightarrow> Completed T2))"
    using assms
    by (auto simp: migrate_all_data_main_def migrate_parts_def confirm_def
          split: sum.splits list.splits)
  have fl: "update_flags_guarded e src T = Inr T2 \<Longrightarrow> T2 = set_flags (marker_ids src) T" for T2
    using execute_all_Inr [of e T "map SetHasSpectrumIfFalse (marker_ids src)" T2]
    by (simp add: update_flags_guarded_def foldl_guarded_flags)
  have fin: "final_state (migrate_all_data_main e src T) = T \<or>
             final_state (migrate_all_data_main e src T) = set_flags (marker_ids src) T"
    unfolding main
    by (auto simp: confirm_def split: sum.splits list.splits dest: fl)
  have "pg_spectra (set_flags (marker_ids src) T) = pg_spectra T"
    by (simp add: set_flags_def)
  moreover have "map pm_speed (pg_markers (set_flags (marker_ids src) T)) = map pm_speed (pg_markers T)"
    by (simp add: set_flags_def comp_def)
  ultimately show ?thesis using main fin by metis
qed

theorem C10_gates_retest_count_deltas_witness:
  "migrate_all_data_main (plain_env [''yes'', ''YES'']) gate_src gate_target =
     Completed (gate_target\<lparr>pg_markers :=
        [\<lparr>pm_id = 7, pm_has_spectrum = True, pm_speed = None\<rparr>,
         \<lparr>pm_id = 8, pm_has_spectrum = False, pm_speed = Some 9\<rparr>]\<rparr>)
   \<and> pg_spectra (final_state (migrate_all_data_main (plain_env [''yes'', ''YES'']) gate_src gate_target))
       = pg_spectra gate_target
   \<and> map pm_speed (pg_markers (final_state
         (migrate_all_data_main (plain_env [''yes'', ''YES'']) gate_src gate_target)))
       = map pm_speed (pg_markers gate_target)"
proof -
  have h1: "sqlite_exists (plain_env [''yes'', ''YES''])"
    and h2: "pg_connects (plain_env [''yes'', ''YES''])"
    and h6: "stdin (plain_env [''yes'', ''YES'']) = ''yes'' # [''YES'']"
    by (simp_all add: plain_env_def)
  have h3: "\<not> (sqlite_spectra_count gate_src = 0 \<and> sqlite_markers_speed gate_src = 0)"
    by (simp add: sqlite_spectra_count_def gate_src_def)
  have h4: "spectra_to_migrate gate_src gate_target \<le> 0"
    by (simp add: spectra_to_migrate_def sqlite_spectra_count_def pg_spectra_count_def
          gate_src_def gate_target_def)
  have h5: "speed_to_migrate gate_src gate_target \<le> 0"
    by (simp add: speed_to_migrate_def sqlite_markers_speed_def pg_markers_speed_def
          gate_src_def gate_target_def List.map_filter_def speed_row_def has_speed_def)
  have h7: "lower ''yes'' = ''yes''"
    by (simp add: lower_def lower_char_def)
  have fl: "update_flags_guarded (plain_env [''yes'', ''YES'']) gate_src gate_target =
      Inr (gate_target\<lparr>pg_markers :=
        [\<lparr>pm_id = 7, pm_has_spectrum = True, pm_speed = None\<rparr>,
         \<lparr>pm_id = 8, pm_has_spectrum = False, pm_speed = Some 9\<rparr>]\<rparr>)"
    by (simp add: update_flags_guarded_def marker_ids_def gate_src_def gate_target_def
          execute_def plain_env_def)
  have cf: "confirm [''YES''] gate_target = Inr []"
    by (simp add: confirm_def lower_def lower_char_def)
  have run: "migrate_all_data_main (plain_env [''yes'', ''YES'']) gate_src gate_target =
     Completed (gate_target\<lparr>pg_markers :=
        [\<lparr>pm_id = 7, pm_has_spectrum = True, pm_speed = None\<rparr>,
         \<lparr>pm_id = 8, pm_has_spectrum = False, pm_speed = Some 9\<rparr>]\<rparr>)"
    using C10_gates_retest_count_deltas [OF h1 h2 h3 h4 h5 h6 h7, THEN conjunct1]
    by (simp add: fl cf)
  show ?thesis
    by (simp add: run) (simp add: gate_target_def)
qed

end
